theory Spec2Isabelle
  imports Main
begin

section \<open>The runtime library used by \<open>src/App.jsx\<close>\<close>

text \<open>
  Names of camps and kids are JavaScript strings, modelled as \<open>string\<close>: a list of
  code units, each below 256 (the Latin-1 range of UTF-16).
\<close>

subsection \<open>Template literals: the cell key\<close>

text \<open>
  \<^verbatim>\<open>const key = `${campIndex}-${weekIndex}`;\<close>
  Both indices are array positions, that is natural numbers, written in decimal.
\<close>

definition digitChar :: "nat \<Rightarrow> char" where
  "digitChar n = ''0123456789'' ! n"

fun toStringNat :: "nat \<Rightarrow> string" where
  "toStringNat n =
     (if n < 10 then [digitChar n]
      else toStringNat (n div 10) @ [digitChar (n mod 10)])"

declare toStringNat.simps [simp del]

definition cellKey :: "nat \<Rightarrow> nat \<Rightarrow> string" where
  "cellKey campIndex weekIndex = toStringNat campIndex @ ''-'' @ toStringNat weekIndex"

text \<open>Reading a decimal numeral back; only used to show that keys do not collide.\<close>

definition digitVal :: "char \<Rightarrow> nat" where
  "digitVal c = of_char c - 48"

definition fromDigits :: "string \<Rightarrow> nat" where
  "fromDigits s = foldl (\<lambda>a c. 10 * a + digitVal c) 0 s"

subsection \<open>\<open>Array.prototype.sort\<close> with a comparator\<close>

text \<open>
  Every sort of the source is \<^verbatim>\<open>xs.sort((a,b) => a.localeCompare(b))\<close>. The collation
  \<open>localeCompare\<close> belongs to the runtime, so the comparator is a parameter \<open>cmp\<close>:
  \<open>cmp a b\<close> is the number \<open>a.localeCompare(b)\<close>, and \<open>a\<close> may stand before \<open>b\<close>
  when \<open>cmp a b \<le> 0\<close>. The sort of the language is stable; stable insertion sort
  computes the same list whenever the comparator is consistent.
\<close>

type_synonym 'a comparator = "'a \<Rightarrow> 'a \<Rightarrow> int"

definition consistent :: "'a comparator \<Rightarrow> bool" where
  "consistent cmp \<longleftrightarrow>
     (\<forall>a b. cmp a b \<le> 0 \<or> cmp b a \<le> 0) \<and>
     (\<forall>a b c. cmp a b \<le> 0 \<longrightarrow> cmp b c \<le> 0 \<longrightarrow> cmp a c \<le> 0)"

fun insort_cmp :: "'a comparator \<Rightarrow> 'a \<Rightarrow> 'a list \<Rightarrow> 'a list" where
  "insort_cmp cmp x [] = [x]"
| "insort_cmp cmp x (y # ys) =
     (if cmp x y \<le> 0 then x # y # ys else y # insort_cmp cmp x ys)"

definition js_sort :: "'a comparator \<Rightarrow> 'a list \<Rightarrow> 'a list" where
  "js_sort cmp xs = foldr (insort_cmp cmp) xs []"

text \<open>
  A concrete comparator for the examples: code units compared from the left. On the
  names used in the examples below it orders as \<open>localeCompare\<close> does.
\<close>

fun codeCompare :: "string comparator" where
  "codeCompare [] [] = 0"
| "codeCompare [] (y # ys) = - 1"
| "codeCompare (x # xs) [] = 1"
| "codeCompare (x # xs) (y # ys) =
     (if (of_char x :: nat) < of_char y then - 1
      else if (of_char y :: nat) < of_char x then 1
      else codeCompare xs ys)"

subsection \<open>\<open>indexOf\<close>, the remainder, array reads\<close>

text \<open>\<open>xs.indexOf(x)\<close>: the first position of \<open>x\<close>, or \<open>-1\<close>.\<close>

fun indexOf :: "'a list \<Rightarrow> 'a \<Rightarrow> int" where
  "indexOf [] x = - 1"
| "indexOf (y # ys) x =
     (if y = x then 0
      else if indexOf ys x < 0 then - 1 else indexOf ys x + 1)"

text \<open>\<open>a % b\<close> on integers takes the sign of the dividend: \<open>-1 % 8\<close> is \<open>-1\<close>.\<close>

definition js_rem :: "int \<Rightarrow> int \<Rightarrow> int" where
  "js_rem a b = sgn a * (\<bar>a\<bar> mod \<bar>b\<bar>)"

text \<open>\<open>xs[i]\<close>: the element, or \<open>undefined\<close> (here \<open>None\<close>) outside \<open>0 .. length - 1\<close>.\<close>

definition arrayAt :: "'a list \<Rightarrow> int \<Rightarrow> 'a option" where
  "arrayAt xs i = (if 0 \<le> i \<and> i < int (length xs) then Some (xs ! nat i) else None)"

subsection \<open>\<open>trim\<close>, \<open>substring\<close>, \<open>toUpperCase\<close>\<close>

text \<open>The white space of the language within the code units below 256.\<close>

definition isWhiteSpace :: "char \<Rightarrow> bool" where
  "isWhiteSpace c \<longleftrightarrow> (of_char c :: nat) \<in> {9, 10, 11, 12, 13, 32, 160}"

definition trim :: "string \<Rightarrow> string" where
  "trim s = rev (dropWhile isWhiteSpace (rev (dropWhile isWhiteSpace s)))"

text \<open>\<open>s.substring(a, b)\<close> on non-negative indices: both are clamped to the length, and
  swapped when \<open>a > b\<close>.\<close>

definition substring :: "string \<Rightarrow> nat \<Rightarrow> nat \<Rightarrow> string" where
  "substring s a b = take (max a b - min a b) (drop (min a b) s)"

text \<open>\<open>toUpperCase\<close> on the letters a base-36 numeral is made of.\<close>

definition toUpperChar :: "char \<Rightarrow> char" where
  "toUpperChar c =
     (case map_of (zip ''abcdefghijklmnopqrstuvwxyz'' ''ABCDEFGHIJKLMNOPQRSTUVWXYZ'') c of
        None \<Rightarrow> c
      | Some u \<Rightarrow> u)"

definition toUpperCase :: "string \<Rightarrow> string" where
  "toUpperCase s = map toUpperChar s"

subsection \<open>\<open>Set\<close>\<close>

text \<open>
  A \<open>Set\<close> of the language keeps its elements in insertion order, each once. It is
  modelled by the list of its elements in that order; \<open>Array.from\<close> returns this list.
\<close>

type_synonym 'a jsSet = "'a list"

definition setHas :: "'a jsSet \<Rightarrow> 'a \<Rightarrow> bool" where
  "setHas s x \<longleftrightarrow> x \<in> set s"

definition setAdd :: "'a jsSet \<Rightarrow> 'a \<Rightarrow> 'a jsSet" where
  "setAdd s x = (if setHas s x then s else s @ [x])"

definition setDelete :: "'a jsSet \<Rightarrow> 'a \<Rightarrow> 'a jsSet" where
  "setDelete s x = filter (\<lambda>y. y \<noteq> x) s"

definition newSet :: "'a list \<Rightarrow> 'a jsSet" where
  "newSet xs = foldl setAdd [] xs"

definition arrayFrom :: "'a jsSet \<Rightarrow> 'a list" where
  "arrayFrom s = s"

section \<open>The schedule document\<close>

text \<open>
  The fields written by \<open>handleCreateSchedule\<close>. The field \<open>schedule\<close> is an object
  whose property names are cell keys and whose values are arrays of kid names.
\<close>

record ScheduleDocument =
  kidName :: string
  ownerId :: string
  collaborators :: "string list"
  camps :: "string list"
  allKids :: "string list"
  schedule :: "string \<rightharpoonup> string list"
  startDate :: string
  weekCount :: nat

text \<open>
  \<^verbatim>\<open>const attendees = planData.schedule[key] || [];\<close>
  An array is truthy even when empty, so a stored list is returned as it is.
\<close>

definition attendees :: "(string \<rightharpoonup> string list) \<Rightarrow> nat \<Rightarrow> nat \<Rightarrow> string list" where
  "attendees sched campIndex weekIndex =
     (case sched (cellKey campIndex weekIndex) of None \<Rightarrow> [] | Some a \<Rightarrow> a)"

section \<open>\<open>ScheduleDetailView\<close>: the two writers\<close>

text \<open>
  Both handlers end in \<open>updateDoc\<close> inside \<open>try\<close>/\<open>catch\<close>. The flag \<open>accepted\<close> says
  whether the store took the write; a rejected write is logged and changes nothing.
\<close>

datatype listName = Camps | AllKids

definition handleUpdateList ::
  "string comparator \<Rightarrow> listName \<Rightarrow> string list \<Rightarrow> bool \<Rightarrow> ScheduleDocument \<Rightarrow> ScheduleDocument"
where
  "handleUpdateList cmp listName newList accepted d =
     (let sortedList = js_sort cmp newList in
      if accepted then
        (case listName of
           Camps \<Rightarrow> d\<lparr>camps := sortedList\<rparr>
         | AllKids \<Rightarrow> d\<lparr>allKids := sortedList\<rparr>)
      else d)"

text \<open>\<open>currentCell\<close> holds \<open>null\<close> (here \<open>None\<close>) in both fields until a cell is opened.\<close>

definition handleScheduleChange ::
  "nat option \<times> nat option \<Rightarrow> string list \<Rightarrow> bool \<Rightarrow> ScheduleDocument \<Rightarrow> ScheduleDocument"
where
  "handleScheduleChange currentCell updatedAttendees accepted d =
     (case currentCell of
        (Some campIndex, Some weekIndex) \<Rightarrow>
          (let key = cellKey campIndex weekIndex;
               newSchedule = (schedule d)(key \<mapsto> updatedAttendees)
           in if accepted then d\<lparr>schedule := newSchedule\<rparr> else d)
      | _ \<Rightarrow> d)"

section \<open>\<open>ManagementModal\<close> and \<open>OnboardingScreen\<close>: editing a list of names\<close>

text \<open>
  \<open>handleAddItem\<close> reads the text field \<open>newItem\<close>; \<open>handleRemoveItem\<close> gets the item
  of the row clicked. \<open>handleAddKid\<close> and \<open>handleRemoveKid\<close> of the onboarding screen
  have the same bodies, over the states \<open>kids\<close> and \<open>kidName\<close>.
\<close>

definition handleAddItem :: "string comparator \<Rightarrow> string list \<Rightarrow> string \<Rightarrow> string list" where
  "handleAddItem cmp currentItems newItem =
     (if trim newItem \<noteq> [] \<and> trim newItem \<notin> set currentItems
      then js_sort cmp (currentItems @ [trim newItem])
      else currentItems)"

definition handleRemoveItem :: "string list \<Rightarrow> string \<Rightarrow> string list" where
  "handleRemoveItem currentItems itemToRemove = filter (\<lambda>item. item \<noteq> itemToRemove) currentItems"

definition handleAddKid :: "string comparator \<Rightarrow> string list \<Rightarrow> string \<Rightarrow> string list" where
  "handleAddKid cmp kidList kidNameText =
     (if trim kidNameText \<noteq> [] \<and> trim kidNameText \<notin> set kidList
      then js_sort cmp (kidList @ [trim kidNameText])
      else kidList)"

definition handleRemoveKid :: "string list \<Rightarrow> string \<Rightarrow> string list" where
  "handleRemoveKid kidList nameToRemove = filter (\<lambda>name. name \<noteq> nameToRemove) kidList"

text \<open>A click on Add (with the text typed before it) or on the bin of a row.\<close>

datatype listEdit = AddItem string | RemoveItem string

fun modalStep :: "string comparator \<Rightarrow> string list \<Rightarrow> listEdit \<Rightarrow> string list" where
  "modalStep cmp currentItems (AddItem newItem) = handleAddItem cmp currentItems newItem"
| "modalStep cmp currentItems (RemoveItem item) = handleRemoveItem currentItems item"

fun onboardingStep :: "string comparator \<Rightarrow> string list \<Rightarrow> listEdit \<Rightarrow> string list" where
  "onboardingStep cmp kidList (AddItem kidNameText) = handleAddKid cmp kidList kidNameText"
| "onboardingStep cmp kidList (RemoveItem name) = handleRemoveKid kidList name"

text \<open>
  Opening the modal runs the effect \<^verbatim>\<open>setCurrentItems([...items].sort(...))\<close>; the edits
  follow; \<open>handleSave\<close> passes \<open>currentItems\<close> to \<open>onSave\<close>, which is
  \<open>handleUpdateList\<close> with the name of the list.
\<close>

definition modalItems :: "string comparator \<Rightarrow> string list \<Rightarrow> listEdit list \<Rightarrow> string list" where
  "modalItems cmp items edits = foldl (modalStep cmp) (js_sort cmp items) edits"

definition listOf :: "listName \<Rightarrow> ScheduleDocument \<Rightarrow> string list" where
  "listOf listName d = (case listName of Camps \<Rightarrow> camps d | AllKids \<Rightarrow> allKids d)"

definition ManagementModal_save ::
  "string comparator \<Rightarrow> listName \<Rightarrow> listEdit list \<Rightarrow> bool \<Rightarrow> ScheduleDocument \<Rightarrow> ScheduleDocument"
where
  "ManagementModal_save cmp listName edits accepted d =
     handleUpdateList cmp listName (modalItems cmp (listOf listName d) edits) accepted d"

text \<open>The onboarding screen starts from \<^verbatim>\<open>useState([])\<close> and stores \<open>kids\<close> as it is.\<close>

definition onboardingKids :: "string comparator \<Rightarrow> listEdit list \<Rightarrow> string list" where
  "onboardingKids cmp edits = foldl (onboardingStep cmp) [] edits"

text \<open>Any number of modal sessions on one document, each on one of the two lists.\<close>

fun editSessions ::
  "string comparator \<Rightarrow> (listName \<times> listEdit list \<times> bool) list \<Rightarrow> ScheduleDocument \<Rightarrow> ScheduleDocument"
where
  "editSessions cmp [] d = d"
| "editSessions cmp ((listName, edits, accepted) # rest) d =
     editSessions cmp rest (ManagementModal_save cmp listName edits accepted d)"

text \<open>
  The single edits the claims speak of, each as one session of the modal that the
  store accepts: a name typed and added to \<open>allKids\<close>, the bin clicked on a camp, the
  bin clicked on a kid.
\<close>

definition addKid :: "string comparator \<Rightarrow> string \<Rightarrow> ScheduleDocument \<Rightarrow> ScheduleDocument" where
  "addKid cmp newItem d = ManagementModal_save cmp AllKids [AddItem newItem] True d"

definition removeCamp :: "string comparator \<Rightarrow> string \<Rightarrow> ScheduleDocument \<Rightarrow> ScheduleDocument" where
  "removeCamp cmp camp d = ManagementModal_save cmp Camps [RemoveItem camp] True d"

definition removeKid :: "string comparator \<Rightarrow> string \<Rightarrow> ScheduleDocument \<Rightarrow> ScheduleDocument" where
  "removeKid cmp kid d = ManagementModal_save cmp AllKids [RemoveItem kid] True d"

section \<open>\<open>Dashboard.handleCreateSchedule\<close>\<close>

text \<open>
  \<^verbatim>\<open>Math.random().toString(36).substring(2, 8).toUpperCase()\<close>
  The random number and its base-36 numeral come from the runtime; the numeral is the
  parameter \<open>numeral36\<close> (\<open>0.5\<close> is written \<open>0.i\<close>, and \<open>0\<close> is written \<open>0\<close>).
\<close>

definition newScheduleId :: "string \<Rightarrow> string" where
  "newScheduleId numeral36 = toUpperCase (substring numeral36 2 8)"

definition newScheduleDocument :: "string \<Rightarrow> string \<Rightarrow> ScheduleDocument" where
  "newScheduleDocument kid uid =
     \<lparr>kidName = kid, ownerId = uid, collaborators = [], camps = [], allKids = [kid],
      schedule = Map.empty, startDate = ''2025-06-23'', weekCount = 8\<rparr>"

record UserAccount =
  email :: string
  kids :: "string list"
  schedules :: "string list"

record Store =
  scheduleDocs :: "string \<rightharpoonup> ScheduleDocument"
  userDocs :: "string \<rightharpoonup> UserAccount"

definition arrayUnion :: "'a list \<Rightarrow> 'a \<Rightarrow> 'a list" where
  "arrayUnion xs x = (if x \<in> set xs then xs else xs @ [x])"

text \<open>
  \<open>doc(db, "schedules", newScheduleId)\<close> throws on an empty identifier; this happens
  inside the \<open>try\<close>, so nothing is written. Otherwise \<open>setDoc\<close> replaces whatever
  document the identifier names; nothing reads the store before it. \<open>updateDoc\<close> on
  the user's document follows only when \<open>setDoc\<close> was taken; it is rejected when that
  document does not exist. The flags say whether the store took the first and the
  second write; a rejection is logged and ends the handler.
\<close>

definition handleCreateSchedule ::
  "string \<Rightarrow> string \<Rightarrow> string \<Rightarrow> bool \<Rightarrow> bool \<Rightarrow> Store \<Rightarrow> Store"
where
  "handleCreateSchedule numeral36 kid uid acceptedSet acceptedUpdate st =
     (let newId = newScheduleId numeral36 in
      if newId = [] then st
      else if acceptedSet then
        (let st1 = st\<lparr>scheduleDocs := (scheduleDocs st)(newId \<mapsto> newScheduleDocument kid uid)\<rparr>
         in case userDocs st1 uid of
              None \<Rightarrow> st1
            | Some u \<Rightarrow>
                if acceptedUpdate then
                  st1\<lparr>userDocs :=
                    (userDocs st1)(uid \<mapsto> u\<lparr>schedules := arrayUnion (schedules u) newId\<rparr>)\<rparr>
                else st1)
      else st)"

section \<open>\<open>ScheduleGrid\<close>\<close>

definition kidColors :: "string list" where
  "kidColors =
     [''bg-blue-200 text-blue-800'', ''bg-green-200 text-green-800'',
      ''bg-yellow-200 text-yellow-800'', ''bg-purple-200 text-purple-800'',
      ''bg-pink-200 text-pink-800'', ''bg-indigo-200 text-indigo-800'',
      ''bg-red-200 text-red-800'', ''bg-teal-200 text-teal-800'']"

definition getKidColor :: "string comparator \<Rightarrow> string list \<Rightarrow> string \<Rightarrow> string option" where
  "getKidColor cmp kidList kid =
     (let sortedKids = js_sort cmp kidList;
          index = indexOf sortedKids kid
      in arrayAt kidColors (js_rem index (int (length kidColors))))"

text \<open>
  One cell of the table: a badge (name and colour) for each attendee, and whether the
  plus icon is drawn (\<^verbatim>\<open>attendees.length === 0\<close>). One row for each camp, one cell for
  each week.
\<close>

definition gridCell ::
  "string comparator \<Rightarrow> ScheduleDocument \<Rightarrow> nat \<Rightarrow> nat \<Rightarrow> (string \<times> string option) list \<times> bool"
where
  "gridCell cmp planData campIndex weekIndex =
     (let present = attendees (schedule planData) campIndex weekIndex
      in (map (\<lambda>kid. (kid, getKidColor cmp (allKids planData) kid)) present,
          length present = 0))"

definition ScheduleGrid ::
  "string comparator \<Rightarrow> ScheduleDocument \<Rightarrow> (string \<times> ((string \<times> string option) list \<times> bool) list) list"
where
  "ScheduleGrid cmp planData =
     map (\<lambda>campIndex.
            (camps planData ! campIndex,
             map (gridCell cmp planData campIndex) [0 ..< weekCount planData]))
         [0 ..< length (camps planData)]"

section \<open>\<open>PrintableSummary\<close>\<close>

text \<open>
  The \<open>for\<close> loop over \<open>campIndex\<close>, from the index given; the result is the pair
  \<open>(kidCamp, friends)\<close> at the end of the loop. The summary has one such pair for each
  week; the date in the header of a week is not part of the model.
\<close>

function campLoop ::
  "ScheduleDocument \<Rightarrow> string \<Rightarrow> nat \<Rightarrow> nat \<Rightarrow> string \<times> string list"
where
  "campLoop planData selectedKid weekIndex campIndex =
     (if campIndex < length (camps planData) then
        (if selectedKid \<in> set (attendees (schedule planData) campIndex weekIndex)
         then (camps planData ! campIndex,
               filter (\<lambda>name. name \<noteq> selectedKid)
                 (attendees (schedule planData) campIndex weekIndex))
         else campLoop planData selectedKid weekIndex (campIndex + 1))
      else (''No camp this week!'', []))"
  by pat_completeness auto
termination
  by (relation "measure (\<lambda>(planData, selectedKid, weekIndex, campIndex).
        length (camps planData) - campIndex)") auto

declare campLoop.simps [simp del]

definition PrintableSummary :: "ScheduleDocument \<Rightarrow> string \<Rightarrow> (string \<times> string list) list" where
  "PrintableSummary planData selectedKid =
     map (\<lambda>weekIndex. campLoop planData selectedKid weekIndex 0) [0 ..< weekCount planData]"

section \<open>\<open>EditScheduleModal\<close>\<close>

text \<open>
  The state \<open>selectedKids\<close> starts as \<^verbatim>\<open>new Set(currentAttendees)\<close>; the dialog shows one
  checkbox for each kid of the sorted list, checked when the set has the kid.
\<close>

definition initialSelectedKids :: "ScheduleDocument \<Rightarrow> nat \<Rightarrow> nat \<Rightarrow> string jsSet" where
  "initialSelectedKids planData campIndex weekIndex =
     newSet (attendees (schedule planData) campIndex weekIndex)"

definition checkboxes :: "string comparator \<Rightarrow> ScheduleDocument \<Rightarrow> string jsSet \<Rightarrow> (string \<times> bool) list" where
  "checkboxes cmp planData selectedKids =
     map (\<lambda>kid. (kid, setHas selectedKids kid)) (js_sort cmp (allKids planData))"

definition handleCheckboxChange :: "string jsSet \<Rightarrow> string \<Rightarrow> string jsSet" where
  "handleCheckboxChange prev kid =
     (if setHas prev kid then setDelete prev kid else setAdd prev kid)"

text \<open>\<open>handleSave\<close> of the dialog: the list handed to \<open>handleScheduleChange\<close>.\<close>

definition submittedAttendees :: "ScheduleDocument \<Rightarrow> nat \<Rightarrow> nat \<Rightarrow> string list \<Rightarrow> string list" where
  "submittedAttendees planData campIndex weekIndex toggles =
     arrayFrom (foldl handleCheckboxChange (initialSelectedKids planData campIndex weekIndex) toggles)"

definition EditScheduleModal_save ::
  "nat \<Rightarrow> nat \<Rightarrow> string list \<Rightarrow> bool \<Rightarrow> ScheduleDocument \<Rightarrow> ScheduleDocument"
where
  "EditScheduleModal_save campIndex weekIndex toggles accepted d =
     handleScheduleChange (Some campIndex, Some weekIndex)
       (submittedAttendees d campIndex weekIndex toggles) accepted d"

section \<open>The words of the specification\<close>

text \<open>
  A list is sorted by a comparator when each element may stand before every later
  one. This is what the specification calls lexicographic order: the order of
  \<open>localeCompare\<close>, by which the source sorts.
\<close>

definition sortedBy :: "'a comparator \<Rightarrow> 'a list \<Rightarrow> bool" where
  "sortedBy cmp xs = sorted_wrt (\<lambda>a b. cmp a b \<le> 0) xs"

text \<open>
  The invariant the specification states for a list of names, and for the two lists
  of a document.
\<close>

definition rosterInv :: "string comparator \<Rightarrow> string list \<Rightarrow> bool" where
  "rosterInv cmp xs \<longleftrightarrow> distinct xs \<and> sortedBy cmp xs"

definition docInv :: "string comparator \<Rightarrow> ScheduleDocument \<Rightarrow> bool" where
  "docInv cmp d \<longleftrightarrow> rosterInv cmp (camps d) \<and> rosterInv cmp (allKids d)"

text \<open>
  \<open>index(kid, sortedAllKids)\<close>: the number of names before the first occurrence of
  the kid; and the colour \<open>palette[index(kid, sortedAllKids) mod |palette|]\<close>.
\<close>

definition specIndex :: "'a list \<Rightarrow> 'a \<Rightarrow> nat" where
  "specIndex xs x = length (takeWhile (\<lambda>y. y \<noteq> x) xs)"

definition specColor :: "string comparator \<Rightarrow> string list \<Rightarrow> string \<Rightarrow> string" where
  "specColor cmp kidList kid =
     kidColors ! (specIndex (js_sort cmp kidList) kid mod length kidColors)"

section \<open>Example documents\<close>

text \<open>The document of the scenarios: two camps, two kids, two weeks, Bo at Soccer in
  the first week.\<close>

definition exampleDoc :: ScheduleDocument where
  "exampleDoc =
     \<lparr>kidName = ''Ann'', ownerId = ''u1'', collaborators = [],
      camps = [''Art'', ''Soccer''], allKids = [''Ann'', ''Bo''],
      schedule = [''1-0'' \<mapsto> [''Bo'']], startDate = ''2025-06-23'', weekCount = 2\<rparr>"

text \<open>Bo is booked into both camps in the first week, and into none in the second.\<close>

definition doubleBookedDoc :: ScheduleDocument where
  "doubleBookedDoc =
     \<lparr>kidName = ''Bo'', ownerId = ''u1'', collaborators = [],
      camps = [''Art'', ''Soccer''], allKids = [''Ann'', ''Bo'', ''Cy''],
      schedule = [''0-0'' \<mapsto> [''Ann'', ''Bo''], ''1-0'' \<mapsto> [''Bo'', ''Cy'']],
      startDate = ''2025-06-23'', weekCount = 2\<rparr>"

text \<open>
  Two sessions of the modal: on the camps (a name with blanks around it, a name given
  twice, a blank name), then on the kids.
\<close>

definition exampleSessions :: "(listName \<times> listEdit list \<times> bool) list" where
  "exampleSessions =
     [(Camps, [AddItem ''Soccer'', AddItem '' Art '', AddItem ''Soccer'', AddItem ''  ''], True),
      (AllKids, [AddItem ''Bo'', RemoveItem ''Ann'', AddItem ''Ann''], True)]"

section \<open>Keys do not collide\<close>

lemma small_cases: "n < 10 \<Longrightarrow> n \<in> {0, 1, 2, 3, 4, 5, 6, 7, 8, 9::nat}"
  by auto

lemma digitVal_digitChar: "n < 10 \<Longrightarrow> digitVal (digitChar n) = n"
  using small_cases [of n] by (auto simp: digitVal_def digitChar_def)

lemma digitChar_not_dash: "n < 10 \<Longrightarrow> digitChar n \<noteq> CHR ''-''"
  using small_cases [of n] by (auto simp: digitChar_def)

lemma fromDigits_toStringNat: "fromDigits (toStringNat n) = n"
proof (induction n rule: toStringNat.induct)
  case (1 n)
  show ?case
  proof (cases "n < 10")
    case True
    then show ?thesis
      by (simp add: toStringNat.simps [of n] fromDigits_def digitVal_digitChar)
  next
    case False
    with 1 have "fromDigits (toStringNat (n div 10)) = n div 10" by simp
    with False show ?thesis
      by (simp add: toStringNat.simps [of n] fromDigits_def digitVal_digitChar)
  qed
qed

lemma toStringNat_inj: "toStringNat n = toStringNat m \<Longrightarrow> n = m"
  by (metis fromDigits_toStringNat)

lemma toStringNat_no_dash: "CHR ''-'' \<notin> set (toStringNat n)"
proof (induction n rule: toStringNat.induct)
  case (1 n)
  show ?case
  proof (cases "n < 10")
    case True
    then show ?thesis
      using digitChar_not_dash [of n] by (auto simp add: toStringNat.simps [of n])
  next
    case False
    with 1 have "CHR ''-'' \<notin> set (toStringNat (n div 10))" by simp
    with False show ?thesis
      using digitChar_not_dash [of "n mod 10"] by (auto simp add: toStringNat.simps [of n])
  qed
qed

lemma takeWhile_upto: "x \<notin> set xs \<Longrightarrow> takeWhile (\<lambda>c. c \<noteq> x) (xs @ x # ys) = xs"
  by (induction xs) auto

lemma dropWhile_upto: "x \<notin> set xs \<Longrightarrow> dropWhile (\<lambda>c. c \<noteq> x) (xs @ x # ys) = x # ys"
  by (induction xs) auto

lemma takeWhile_key: "takeWhile (\<lambda>c. c \<noteq> CHR ''-'') (cellKey c w) = toStringNat c"
  using toStringNat_no_dash [of c] by (simp add: cellKey_def takeWhile_upto)

lemma dropWhile_key:
  "dropWhile (\<lambda>c. c \<noteq> CHR ''-'') (cellKey c w) = CHR ''-'' # toStringNat w"
  using toStringNat_no_dash [of c] by (simp add: cellKey_def dropWhile_upto)

lemma cellKey_inj: "cellKey c w = cellKey c' w' \<Longrightarrow> c = c' \<and> w = w'"
proof
  assume eq: "cellKey c w = cellKey c' w'"
  from eq have "toStringNat c = toStringNat c'" using takeWhile_key by metis
  then show "c = c'" by (rule toStringNat_inj)
  from eq have "CHR ''-'' # toStringNat w = CHR ''-'' # toStringNat w'"
    using dropWhile_key by metis
  then show "w = w'" by (simp add: toStringNat_inj)
qed

lemma cellKey_eq_iff: "cellKey c w = cellKey c' w' \<longleftrightarrow> c = c' \<and> w = w'"
  using cellKey_inj by blast

lemma cellKey_Suc0:
  "cellKey 0 0 = ''0-0''" "cellKey (Suc 0) 0 = ''1-0''"
  "cellKey 0 (Suc 0) = ''0-1''" "cellKey (Suc 0) (Suc 0) = ''1-1''"
  by (simp_all add: cellKey_def toStringNat.simps digitChar_def)

section \<open>Sorting with a consistent comparator\<close>

lemma set_insort_cmp: "set (insort_cmp cmp x xs) = insert x (set xs)"
  by (induction xs) auto

lemma set_js_sort: "set (js_sort cmp xs) = set xs"
  by (induction xs) (simp_all add: js_sort_def set_insort_cmp)

lemma consistentD_total: "consistent cmp \<Longrightarrow> \<not> cmp a b \<le> 0 \<Longrightarrow> cmp b a \<le> 0"
  unfolding consistent_def by blast

lemma consistentD_trans: "consistent cmp \<Longrightarrow> cmp a b \<le> 0 \<Longrightarrow> cmp b c \<le> 0 \<Longrightarrow> cmp a c \<le> 0"
  unfolding consistent_def by blast

lemma sortedBy_insort_cmp:
  assumes "consistent cmp"
  shows "sortedBy cmp xs \<Longrightarrow> sortedBy cmp (insort_cmp cmp x xs)"
proof (induction xs)
  case Nil
  then show ?case by (simp add: sortedBy_def)
next
  case (Cons y ys)
  show ?case
  proof (cases "cmp x y \<le> 0")
    case True
    with Cons.prems show ?thesis
      using consistentD_trans [OF assms, of x y]
      by (auto simp: sortedBy_def)
  next
    case False
    then have "cmp y x \<le> 0" by (rule consistentD_total [OF assms])
    with False Cons show ?thesis
      by (auto simp: sortedBy_def set_insort_cmp)
  qed
qed

lemma sortedBy_foldr_insort:
  "consistent cmp \<Longrightarrow> sortedBy cmp ys \<Longrightarrow> sortedBy cmp (foldr (insort_cmp cmp) xs ys)"
  by (induction xs) (simp_all add: sortedBy_insort_cmp)

lemma sortedBy_js_sort: "consistent cmp \<Longrightarrow> sortedBy cmp (js_sort cmp xs)"
proof (induction xs)
  case Nil
  then show ?case by (simp add: js_sort_def sortedBy_def)
next
  case (Cons x xs)
  then have "sortedBy cmp (insort_cmp cmp x (js_sort cmp xs))"
    by (simp add: sortedBy_insort_cmp)
  then show ?case by (simp add: js_sort_def)
qed

lemma distinct_insort_cmp: "distinct (insort_cmp cmp x xs) \<longleftrightarrow> x \<notin> set xs \<and> distinct xs"
  by (induction xs) (auto simp: set_insort_cmp)

lemma distinct_js_sort: "distinct (js_sort cmp xs) \<longleftrightarrow> distinct xs"
proof (induction xs)
  case Nil
  then show ?case by (simp add: js_sort_def)
next
  case (Cons x xs)
  have "js_sort cmp (x # xs) = insort_cmp cmp x (js_sort cmp xs)" by (simp add: js_sort_def)
  with Cons show ?case by (simp add: distinct_insort_cmp set_js_sort)
qed

lemma insort_cmp_sorted_head: "sortedBy cmp (x # xs) \<Longrightarrow> insort_cmp cmp x xs = x # xs"
  by (cases xs) (simp_all add: sortedBy_def)

lemma js_sort_sorted_id: "sortedBy cmp xs \<Longrightarrow> js_sort cmp xs = xs"
proof (induction xs)
  case Nil
  then show ?case by (simp add: js_sort_def)
next
  case (Cons x xs)
  from Cons.prems have "sortedBy cmp xs" by (simp add: sortedBy_def)
  with Cons.IH have "js_sort cmp xs = xs" by simp
  then have "js_sort cmp (x # xs) = insort_cmp cmp x xs" by (simp add: js_sort_def)
  with Cons.prems show ?case by (simp add: insort_cmp_sorted_head)
qed

lemma sortedBy_filter: "sortedBy cmp xs \<Longrightarrow> sortedBy cmp (filter P xs)"
  by (simp add: sortedBy_def sorted_wrt_filter)

text \<open>
  Sorting a list to which a new element was appended, and taking the new element out
  again, gives the sorted list: the others keep their order.
\<close>

lemma remove1_insort_cmp:
  assumes "consistent cmp" "t \<noteq> x"
  shows "sortedBy cmp ys \<Longrightarrow> remove1 t (insort_cmp cmp x ys) = insort_cmp cmp x (remove1 t ys)"
proof (induction ys)
  case Nil
  with assms(2) show ?case by simp
next
  case (Cons y ys)
  from Cons.prems have s: "sortedBy cmp ys" by (simp add: sortedBy_def)
  show ?case
  proof (cases "cmp x y \<le> 0")
    case True
    show ?thesis
    proof (cases "y = t")
      case yt: True
      have "insort_cmp cmp x ys = x # ys"
      proof (cases ys)
        case Nil
        then show ?thesis by simp
      next
        case (Cons z zs)
        with Cons.prems have "cmp y z \<le> 0" by (simp add: sortedBy_def)
        with True have "cmp x z \<le> 0" by (rule consistentD_trans [OF assms(1)])
        with Cons show ?thesis by simp
      qed
      with True yt assms(2) show ?thesis by simp
    next
      case False
      with True assms(2) show ?thesis by simp
    qed
  next
    case False
    with Cons.IH [OF s] assms(2) show ?thesis by simp
  qed
qed

lemma remove1_foldr_insort:
  assumes "consistent cmp"
  shows "t \<notin> set xs \<Longrightarrow>
    remove1 t (foldr (insort_cmp cmp) xs [t]) = foldr (insort_cmp cmp) xs []"
proof (induction xs)
  case Nil
  then show ?case by simp
next
  case (Cons x xs)
  from Cons.prems have ne: "t \<noteq> x" and nin: "t \<notin> set xs" by auto
  have "sortedBy cmp (foldr (insort_cmp cmp) xs [t])"
    using assms by (rule sortedBy_foldr_insort) (simp add: sortedBy_def)
  then have "remove1 t (insort_cmp cmp x (foldr (insort_cmp cmp) xs [t]))
     = insort_cmp cmp x (remove1 t (foldr (insort_cmp cmp) xs [t]))"
    by (rule remove1_insort_cmp [OF assms ne])
  with Cons.IH [OF nin] show ?case by simp
qed

lemma remove1_js_sort_snoc:
  "consistent cmp \<Longrightarrow> t \<notin> set xs \<Longrightarrow> remove1 t (js_sort cmp (xs @ [t])) = js_sort cmp xs"
  by (simp add: js_sort_def remove1_foldr_insort)

section \<open>The comparator of the examples is consistent\<close>

lemma codeCompare_le_Cons:
  "codeCompare (x # xs) (y # ys) \<le> 0 \<longleftrightarrow>
     (of_char x :: nat) < of_char y \<or> (x = y \<and> codeCompare xs ys \<le> 0)"
  by (cases "(of_char x :: nat) < of_char y"; cases "(of_char y :: nat) < of_char x") auto

lemma codeCompare_le_Nil: "codeCompare [] b \<le> 0"
  by (cases b) simp_all

lemma codeCompare_Cons_Nil: "\<not> codeCompare (x # xs) [] \<le> 0"
  by simp

lemma codeCompare_total: "codeCompare a b \<le> 0 \<or> codeCompare b a \<le> 0"
proof (induction a arbitrary: b)
  case Nil
  then show ?case by (simp add: codeCompare_le_Nil)
next
  case (Cons x xs)
  show ?case
  proof (cases b)
    case Nil
    then show ?thesis by (simp add: codeCompare_le_Nil)
  next
    case (Cons y ys)
    have "(of_char x :: nat) < of_char y \<or> (of_char y :: nat) < of_char x \<or> x = y"
      by (metis linorder_neqE_nat of_char_eq_iff)
    with Cons Cons.IH [of ys] show ?thesis
      unfolding Cons codeCompare_le_Cons by blast
  qed
qed

lemma codeCompare_trans:
  "codeCompare a b \<le> 0 \<Longrightarrow> codeCompare b c \<le> 0 \<Longrightarrow> codeCompare a c \<le> 0"
proof (induction a arbitrary: b c)
  case Nil
  then show ?case by (simp add: codeCompare_le_Nil)
next
  case (Cons x xs)
  from Cons.prems(1) obtain y ys where b: "b = y # ys"
    by (cases b) (simp_all add: codeCompare_Cons_Nil)
  from Cons.prems(2) b obtain z zs where c: "c = z # zs"
    by (cases c) (simp_all add: codeCompare_Cons_Nil)
  from Cons.prems(1) have ab: "(of_char x :: nat) < of_char y \<or> (x = y \<and> codeCompare xs ys \<le> 0)"
    unfolding b codeCompare_le_Cons .
  from Cons.prems(2) have bc: "(of_char y :: nat) < of_char z \<or> (y = z \<and> codeCompare ys zs \<le> 0)"
    unfolding b c codeCompare_le_Cons .
  have "(of_char x :: nat) < of_char z \<or> (x = z \<and> codeCompare xs zs \<le> 0)"
    using ab bc Cons.IH [of ys zs] by (metis less_trans)
  then show ?case unfolding c codeCompare_le_Cons .
qed

lemma consistent_codeCompare: "consistent codeCompare"
  unfolding consistent_def using codeCompare_total codeCompare_trans by blast

section \<open>The lists stay duplicate-free and sorted\<close>

lemma rosterInv_handleAddItem:
  "consistent cmp \<Longrightarrow> rosterInv cmp xs \<Longrightarrow> rosterInv cmp (handleAddItem cmp xs newItem)"
  by (simp add: rosterInv_def handleAddItem_def distinct_js_sort sortedBy_js_sort)

lemma rosterInv_handleRemoveItem:
  "rosterInv cmp xs \<Longrightarrow> rosterInv cmp (handleRemoveItem xs item)"
  by (simp add: rosterInv_def handleRemoveItem_def sortedBy_filter)

lemma handleAddKid_eq: "handleAddKid = handleAddItem"
  by (intro ext) (simp add: handleAddKid_def handleAddItem_def)

lemma handleRemoveKid_eq: "handleRemoveKid = handleRemoveItem"
  by (intro ext) (simp add: handleRemoveKid_def handleRemoveItem_def)

lemma rosterInv_modalStep:
  "consistent cmp \<Longrightarrow> rosterInv cmp xs \<Longrightarrow> rosterInv cmp (modalStep cmp xs e)"
  by (cases e) (simp_all add: rosterInv_handleAddItem rosterInv_handleRemoveItem)

lemma rosterInv_onboardingStep:
  "consistent cmp \<Longrightarrow> rosterInv cmp xs \<Longrightarrow> rosterInv cmp (onboardingStep cmp xs e)"
  by (cases e)
    (simp_all add: handleAddKid_eq handleRemoveKid_eq rosterInv_handleAddItem
      rosterInv_handleRemoveItem)

lemma rosterInv_foldl_modalStep:
  "consistent cmp \<Longrightarrow> rosterInv cmp xs \<Longrightarrow> rosterInv cmp (foldl (modalStep cmp) xs edits)"
  by (induction edits arbitrary: xs) (simp_all add: rosterInv_modalStep)

lemma rosterInv_foldl_onboardingStep:
  "consistent cmp \<Longrightarrow> rosterInv cmp xs \<Longrightarrow> rosterInv cmp (foldl (onboardingStep cmp) xs edits)"
  by (induction edits arbitrary: xs) (simp_all add: rosterInv_onboardingStep)

lemma rosterInv_js_sort: "consistent cmp \<Longrightarrow> distinct xs \<Longrightarrow> rosterInv cmp (js_sort cmp xs)"
  by (simp add: rosterInv_def distinct_js_sort sortedBy_js_sort)

lemma rosterInv_modalItems:
  "consistent cmp \<Longrightarrow> distinct items \<Longrightarrow> rosterInv cmp (modalItems cmp items edits)"
  by (simp add: modalItems_def rosterInv_foldl_modalStep rosterInv_js_sort)

lemma rosterInv_Nil: "rosterInv cmp []"
  by (simp add: rosterInv_def sortedBy_def)

lemma rosterInv_onboardingKids: "consistent cmp \<Longrightarrow> rosterInv cmp (onboardingKids cmp edits)"
  by (simp add: onboardingKids_def rosterInv_foldl_onboardingStep rosterInv_Nil)

lemma docInv_save:
  assumes "consistent cmp" "docInv cmp d"
  shows "docInv cmp (ManagementModal_save cmp listName edits accepted d)"
proof -
  have "distinct (listOf listName d)"
    using assms(2) by (cases listName) (simp_all add: docInv_def rosterInv_def listOf_def)
  then have "rosterInv cmp (modalItems cmp (listOf listName d) edits)"
    using assms(1) by (simp add: rosterInv_modalItems)
  then have "distinct (modalItems cmp (listOf listName d) edits)"
    by (simp add: rosterInv_def)
  then have "rosterInv cmp (js_sort cmp (modalItems cmp (listOf listName d) edits))"
    using assms(1) by (rule rosterInv_js_sort [rotated])
  with assms(2) show ?thesis
    by (cases listName)
      (simp_all add: ManagementModal_save_def handleUpdateList_def Let_def docInv_def)
qed

lemma docInv_editSessions:
  "consistent cmp \<Longrightarrow> docInv cmp d \<Longrightarrow> docInv cmp (editSessions cmp sessions d)"
proof (induction sessions arbitrary: d)
  case Nil
  then show ?case by simp
next
  case (Cons s sessions)
  obtain listName edits accepted where s: "s = (listName, edits, accepted)"
    by (cases s) auto
  from Cons.prems have "docInv cmp (ManagementModal_save cmp listName edits accepted d)"
    by (simp add: docInv_save)
  with Cons.IH Cons.prems(1) s show ?case by simp
qed

lemma docInv_new: "docInv cmp (newScheduleDocument kid uid)"
  by (simp add: docInv_def rosterInv_def sortedBy_def newScheduleDocument_def)

section \<open>The modal writes one list and nothing else\<close>

lemma schedule_ManagementModal_save:
  "schedule (ManagementModal_save cmp listName edits accepted d) = schedule d"
  by (cases listName) (simp_all add: ManagementModal_save_def handleUpdateList_def Let_def)

lemma allKids_addKid:
  assumes "consistent cmp" "trim newItem \<noteq> []" "trim newItem \<notin> set (allKids d)"
  shows "allKids (addKid cmp newItem d) = js_sort cmp (js_sort cmp (allKids d) @ [trim newItem])"
proof -
  have "sortedBy cmp (js_sort cmp (js_sort cmp (allKids d) @ [trim newItem]))"
    using assms(1) by (rule sortedBy_js_sort)
  then have "js_sort cmp (js_sort cmp (js_sort cmp (allKids d) @ [trim newItem]))
     = js_sort cmp (js_sort cmp (allKids d) @ [trim newItem])"
    by (rule js_sort_sorted_id)
  with assms(2,3) show ?thesis
    by (simp add: addKid_def ManagementModal_save_def handleUpdateList_def modalItems_def
        listOf_def handleAddItem_def set_js_sort)
qed

lemma sorted_after_addKid:
  assumes "consistent cmp" "trim newItem \<noteq> []" "trim newItem \<notin> set (allKids d)"
  shows "remove1 (trim newItem) (js_sort cmp (allKids (addKid cmp newItem d)))
           = js_sort cmp (allKids d)"
    and "set (allKids (addKid cmp newItem d)) = insert (trim newItem) (set (allKids d))"
proof -
  let ?S = "js_sort cmp (allKids d)"
  let ?L = "js_sort cmp (?S @ [trim newItem])"
  have a: "allKids (addKid cmp newItem d) = ?L" using assms by (rule allKids_addKid)
  have "sortedBy cmp ?L" using assms(1) by (rule sortedBy_js_sort)
  then have i: "js_sort cmp ?L = ?L" by (rule js_sort_sorted_id)
  have "trim newItem \<notin> set ?S" using assms(3) by (simp add: set_js_sort)
  with assms(1) have "remove1 (trim newItem) ?L = js_sort cmp ?S"
    by (rule remove1_js_sort_snoc)
  moreover have "js_sort cmp ?S = ?S"
    using assms(1) by (intro js_sort_sorted_id sortedBy_js_sort)
  ultimately show "remove1 (trim newItem) (js_sort cmp (allKids (addKid cmp newItem d))) = ?S"
    by (simp add: a i)
  show "set (allKids (addKid cmp newItem d)) = insert (trim newItem) (set (allKids d))"
    by (simp add: a set_js_sort)
qed

section \<open>\<open>indexOf\<close> and the palette\<close>

lemma indexOf_absent: "x \<notin> set xs \<Longrightarrow> indexOf xs x = - 1"
  by (induction xs) auto

lemma indexOf_present: "x \<in> set xs \<Longrightarrow> 0 \<le> indexOf xs x \<and> indexOf xs x < int (length xs)"
  by (induction xs) auto

lemma indexOf_specIndex: "x \<in> set xs \<Longrightarrow> indexOf xs x = int (specIndex xs x)"
proof (induction xs)
  case Nil
  then show ?case by simp
next
  case (Cons y ys)
  show ?case
  proof (cases "y = x")
    case True
    then show ?thesis by (simp add: specIndex_def)
  next
    case False
    with Cons have "indexOf ys x = int (specIndex ys x)" by simp
    with False show ?thesis by (simp add: specIndex_def)
  qed
qed

lemma specIndex_after_remove1:
  "t \<noteq> k \<Longrightarrow> specIndex xs t < specIndex xs k \<Longrightarrow>
   specIndex xs k = Suc (specIndex (remove1 t xs) k)"
  by (induction xs) (auto simp: specIndex_def)

lemma specIndex_before_remove1:
  "specIndex xs k < specIndex xs t \<Longrightarrow> specIndex (remove1 t xs) k = specIndex xs k"
  by (induction xs) (auto simp: specIndex_def)

lemma length_kidColors: "length kidColors = 8"
  by (simp add: kidColors_def)

lemma js_rem_nonneg: "0 \<le> a \<Longrightarrow> 0 < b \<Longrightarrow> js_rem a b = a mod b"
  by (cases "a = 0") (simp_all add: js_rem_def)

lemma getKidColor_absent: "kid \<notin> set kidList \<Longrightarrow> getKidColor cmp kidList kid = None"
  by (simp add: getKidColor_def Let_def indexOf_absent set_js_sort js_rem_def arrayAt_def
      length_kidColors)

lemma getKidColor_present:
  assumes "kid \<in> set kidList"
  shows "getKidColor cmp kidList kid
           = Some (kidColors ! (nat (indexOf (js_sort cmp kidList) kid) mod 8))"
proof -
  let ?i = "indexOf (js_sort cmp kidList) kid"
  from assms have i: "0 \<le> ?i" using indexOf_present [of kid "js_sort cmp kidList"]
    by (simp add: set_js_sort)
  then have r: "js_rem ?i 8 = ?i mod 8" by (simp add: js_rem_nonneg)
  have "0 \<le> ?i mod 8" "?i mod 8 < 8" by simp_all
  moreover have "nat (?i mod 8) = nat ?i mod 8" using i by (simp add: nat_mod_distrib)
  ultimately show ?thesis
    by (simp add: getKidColor_def Let_def length_kidColors r arrayAt_def)
qed

lemma getKidColor_specColor:
  assumes "kid \<in> set kidList"
  shows "getKidColor cmp kidList kid = Some (specColor cmp kidList kid)"
proof -
  from assms have "indexOf (js_sort cmp kidList) kid = int (specIndex (js_sort cmp kidList) kid)"
    by (simp add: indexOf_specIndex set_js_sort)
  with getKidColor_present [OF assms, of cmp] show ?thesis
    by (simp add: specColor_def length_kidColors)
qed

section \<open>The loop of the summary\<close>

lemma campLoop_found:
  "i \<le> c \<Longrightarrow> c < length (camps d) \<Longrightarrow> kid \<in> set (attendees (schedule d) c w) \<Longrightarrow>
   (\<forall>c'. i \<le> c' \<and> c' < c \<longrightarrow> kid \<notin> set (attendees (schedule d) c' w)) \<Longrightarrow>
   campLoop d kid w i
     = (camps d ! c, filter (\<lambda>name. name \<noteq> kid) (attendees (schedule d) c w))"
proof (induction d kid w i rule: campLoop.induct)
  case (1 planData selectedKid weekIndex campIndex)
  show ?case
  proof (cases "campIndex = c")
    case True
    with 1(3,4) show ?thesis by (simp add: campLoop.simps [of planData selectedKid weekIndex c])
  next
    case False
    with 1(2) have lt: "campIndex < c" by simp
    with 1(3) have inr: "campIndex < length (camps planData)" by simp
    from lt 1(5) have out: "selectedKid \<notin> set (attendees (schedule planData) campIndex weekIndex)"
      by simp
    have "campLoop planData selectedKid weekIndex (campIndex + 1)
      = (camps planData ! c,
         filter (\<lambda>name. name \<noteq> selectedKid) (attendees (schedule planData) c weekIndex))"
      using inr out lt 1(3,4,5) by (intro 1(1)) auto
    with inr out show ?thesis
      by (simp add: campLoop.simps [of planData selectedKid weekIndex campIndex])
  qed
qed

lemma campLoop_none:
  "(\<forall>c. i \<le> c \<and> c < length (camps d) \<longrightarrow> kid \<notin> set (attendees (schedule d) c w)) \<Longrightarrow>
   campLoop d kid w i = (''No camp this week!'', [])"
proof (induction d kid w i rule: campLoop.induct)
  case (1 planData selectedKid weekIndex campIndex)
  show ?case
  proof (cases "campIndex < length (camps planData)")
    case True
    with 1(2) have out: "selectedKid \<notin> set (attendees (schedule planData) campIndex weekIndex)"
      by simp
    have "campLoop planData selectedKid weekIndex (campIndex + 1) = (''No camp this week!'', [])"
      using True out 1(2) by (intro 1(1)) auto
    with True out show ?thesis
      by (simp add: campLoop.simps [of planData selectedKid weekIndex campIndex])
  next
    case False
    then show ?thesis
      by (simp add: campLoop.simps [of planData selectedKid weekIndex campIndex])
  qed
qed

lemma campLoop_cong:
  "camps d1 = camps d2 \<Longrightarrow>
   (\<forall>c. attendees (schedule d1) c w = attendees (schedule d2) c w) \<Longrightarrow>
   campLoop d1 kid w i = campLoop d2 kid w i"
proof (induction d1 kid w i rule: campLoop.induct)
  case (1 planData selectedKid weekIndex campIndex)
  show ?case
  proof (cases "campIndex < length (camps planData) \<and>
      selectedKid \<notin> set (attendees (schedule planData) campIndex weekIndex)")
    case True
    then have "campLoop planData selectedKid weekIndex (campIndex + 1)
       = campLoop d2 selectedKid weekIndex (campIndex + 1)"
      using 1(2,3) by (intro 1(1)) auto
    with True 1(2,3) show ?thesis
      by (simp add: campLoop.simps [of planData selectedKid weekIndex campIndex]
          campLoop.simps [of d2 selectedKid weekIndex campIndex])
  next
    case False
    with 1(2,3) show ?thesis
      by (auto simp add: campLoop.simps [of planData selectedKid weekIndex campIndex]
          campLoop.simps [of d2 selectedKid weekIndex campIndex])
  qed
qed

lemma attendees_absent_empty:
  "attendees (s(k := None)) c w = attendees (s(k \<mapsto> [])) c w"
  by (simp add: attendees_def)

lemma doubleBooked_cells:
  "attendees (schedule doubleBookedDoc) 0 0 = [''Ann'', ''Bo'']"
  "attendees (schedule doubleBookedDoc) (Suc 0) 0 = [''Bo'', ''Cy'']"
  "attendees (schedule doubleBookedDoc) 0 (Suc 0) = []"
  "attendees (schedule doubleBookedDoc) (Suc 0) (Suc 0) = []"
  by (simp_all add: attendees_def doubleBookedDoc_def cellKey_Suc0)

section \<open>The set of checked kids\<close>

lemma distinct_setAdd: "distinct s \<Longrightarrow> distinct (setAdd s x)"
  by (simp add: setAdd_def setHas_def)

lemma distinct_setDelete: "distinct s \<Longrightarrow> distinct (setDelete s x)"
  by (simp add: setDelete_def)

lemma distinct_foldl_setAdd: "distinct s \<Longrightarrow> distinct (foldl setAdd s xs)"
  by (induction xs arbitrary: s) (simp_all add: distinct_setAdd)

lemma distinct_newSet: "distinct (newSet xs)"
  by (simp add: newSet_def distinct_foldl_setAdd)

lemma distinct_handleCheckboxChange: "distinct s \<Longrightarrow> distinct (handleCheckboxChange s x)"
  by (simp add: handleCheckboxChange_def distinct_setAdd distinct_setDelete)

lemma distinct_toggles: "distinct s \<Longrightarrow> distinct (foldl handleCheckboxChange s toggles)"
  by (induction toggles arbitrary: s) (simp_all add: distinct_handleCheckboxChange)

section \<open>The identifier of a new schedule\<close>

lemma length_newScheduleId: "length (newScheduleId s) = min 6 (length s - 2)"
  by (simp add: newScheduleId_def substring_def toUpperCase_def)

lemma handleCreateSchedule_overwrites:
  "newScheduleId numeral36 \<noteq> [] \<Longrightarrow>
   scheduleDocs (handleCreateSchedule numeral36 kid uid True acceptedUpdate st)
     (newScheduleId numeral36) = Some (newScheduleDocument kid uid)"
  by (simp add: handleCreateSchedule_def Let_def split: option.split)

lemma handleCreateSchedule_empty:
  "newScheduleId numeral36 = [] \<Longrightarrow>
   handleCreateSchedule numeral36 kid uid acceptedSet acceptedUpdate st = st"
  by (simp add: handleCreateSchedule_def)

section \<open>A cell that is absent or empty\<close>

lemma attendees_absent: "attendees (s(cellKey c w := None)) c w = []"
  by (simp add: attendees_def)

lemma attendees_empty: "attendees (s(cellKey c w \<mapsto> [])) c w = []"
  by (simp add: attendees_def)

lemma attendees_other_absent:
  "c' \<noteq> c \<Longrightarrow> attendees (s(cellKey c w := None)) c' w' = attendees s c' w'"
  by (simp add: attendees_def cellKey_eq_iff)

lemma attendees_other_empty:
  "c' \<noteq> c \<Longrightarrow> attendees (s(cellKey c w \<mapsto> [])) c' w' = attendees s c' w'"
  by (simp add: attendees_def cellKey_eq_iff)

lemma newSet_Nil: "newSet [] = []"
  by (simp add: newSet_def)

lemma summary_none_when_cell_unassigned:
  assumes cell: "attendees (schedule d') c w = []"
    and others: "\<forall>c' < length (camps d'). c' \<noteq> c \<longrightarrow> kid \<notin> set (attendees (schedule d') c' w)"
    and w: "w < weekCount d'"
  shows "PrintableSummary d' kid ! w = (''No camp this week!'', [])"
proof -
  have "\<forall>c'. 0 \<le> c' \<and> c' < length (camps d') \<longrightarrow> kid \<notin> set (attendees (schedule d') c' w)"
  proof (intro allI impI)
    fix c'
    assume "0 \<le> c' \<and> c' < length (camps d')"
    with cell others show "kid \<notin> set (attendees (schedule d') c' w)"
      by (cases "c' = c") auto
  qed
  then have "campLoop d' kid w 0 = (''No camp this week!'', [])"
    by (rule campLoop_none)
  with w show ?thesis by (simp add: PrintableSummary_def)
qed

section \<open>The claims\<close>

subsection \<open>C1: removing a camp\<close>

text \<open>
  C1, as stated, at the example of the specification: camps \<open>Art\<close> and \<open>Soccer\<close>,
  Bo at \<open>(1, 0)\<close>. After \<open>Art\<close>, the camp at index 0, is removed and saved, the
  only camp left is \<open>Soccer\<close> at index 0, but cell \<open>(0, 0)\<close> reads as empty, not as
  Bo; the list with Bo is still stored under the key of \<open>(1, 0)\<close>, and index 1 is
  out of range.
\<close>

theorem removeCamp_counterexample:
  "camps exampleDoc ! 0 = ''Art'' \<and>
   attendees (schedule exampleDoc) 1 0 = [''Bo''] \<and>
   camps (removeCamp codeCompare (camps exampleDoc ! 0) exampleDoc) = [''Soccer''] \<and>
   attendees (schedule (removeCamp codeCompare (camps exampleDoc ! 0) exampleDoc)) 0 0 = [] \<and>
   attendees (schedule (removeCamp codeCompare (camps exampleDoc ! 0) exampleDoc)) 0 0 \<noteq> [''Bo''] \<and>
   schedule (removeCamp codeCompare (camps exampleDoc ! 0) exampleDoc) (cellKey 1 0) = Some [''Bo''] \<and>
   \<not> 1 < length (camps (removeCamp codeCompare (camps exampleDoc ! 0) exampleDoc))"
proof -
  have c: "camps (removeCamp codeCompare (camps exampleDoc ! 0) exampleDoc) = [''Soccer'']"
    by (simp add: removeCamp_def ManagementModal_save_def handleUpdateList_def modalItems_def
        listOf_def handleRemoveItem_def exampleDoc_def js_sort_def)
  have s: "schedule (removeCamp codeCompare (camps exampleDoc ! 0) exampleDoc) = schedule exampleDoc"
    by (simp add: removeCamp_def schedule_ManagementModal_save)
  show ?thesis
    by (simp add: c s) (simp add: exampleDoc_def attendees_def cellKey_Suc0)
qed

text \<open>
  C1, amended. Removing the camp at index \<open>i\<close> writes only the list of camps: the
  names that are left, sorted. The \<open>schedule\<close> object is the same afterwards, so every
  cell \<open>(c, w)\<close> reads as before, for \<open>c < i\<close> and for every other \<open>c\<close>: nothing is
  moved down by one and nothing is dropped. The list of kids is untouched.
\<close>

theorem removeCamp_keeps_schedule:
  "schedule (removeCamp cmp (camps d ! i) d) = schedule d \<and>
   (\<forall>c w. attendees (schedule (removeCamp cmp (camps d ! i) d)) c w = attendees (schedule d) c w) \<and>
   camps (removeCamp cmp (camps d ! i) d)
     = js_sort cmp (filter (\<lambda>item. item \<noteq> camps d ! i) (js_sort cmp (camps d))) \<and>
   allKids (removeCamp cmp (camps d ! i) d) = allKids d"
  by (simp add: removeCamp_def schedule_ManagementModal_save)
    (simp add: ManagementModal_save_def handleUpdateList_def modalItems_def listOf_def
      handleRemoveItem_def)

subsection \<open>C2: removing a kid\<close>

text \<open>
  C2, as stated, at the example document: after Bo is removed from \<open>allKids\<close> and the
  list is saved, the cell \<open>(1, 0)\<close> still lists Bo.
\<close>

theorem removeKid_counterexample:
  "''Bo'' \<in> set (allKids exampleDoc) \<and>
   allKids (removeKid codeCompare ''Bo'' exampleDoc) = [''Ann''] \<and>
   ''Bo'' \<in> set (attendees (schedule (removeKid codeCompare ''Bo'' exampleDoc)) 1 0)"
proof -
  have c: "allKids (removeKid codeCompare ''Bo'' exampleDoc) = [''Ann'']"
    by (simp add: removeKid_def ManagementModal_save_def handleUpdateList_def modalItems_def
        listOf_def handleRemoveItem_def exampleDoc_def js_sort_def)
  have s: "schedule (removeKid codeCompare ''Bo'' exampleDoc) = schedule exampleDoc"
    by (simp add: removeKid_def schedule_ManagementModal_save)
  show ?thesis
    by (simp add: c s) (simp add: exampleDoc_def attendees_def cellKey_Suc0)
qed

text \<open>
  C2, amended. Removing a kid writes only \<open>allKids\<close>: the names that are left, sorted,
  without the kid. The \<open>schedule\<close> object is the same afterwards: it has the same keys,
  and every cell reads as before, the removed name included where it was listed. The
  list of camps is untouched.
\<close>

theorem removeKid_keeps_schedule:
  "schedule (removeKid cmp kid d) = schedule d \<and>
   dom (schedule (removeKid cmp kid d)) = dom (schedule d) \<and>
   (\<forall>c w. attendees (schedule (removeKid cmp kid d)) c w = attendees (schedule d) c w) \<and>
   allKids (removeKid cmp kid d)
     = js_sort cmp (filter (\<lambda>item. item \<noteq> kid) (js_sort cmp (allKids d))) \<and>
   kid \<notin> set (allKids (removeKid cmp kid d)) \<and>
   camps (removeKid cmp kid d) = camps d"
  by (simp add: removeKid_def schedule_ManagementModal_save)
    (simp add: ManagementModal_save_def handleUpdateList_def modalItems_def listOf_def
      handleRemoveItem_def set_js_sort)

subsection \<open>C3: writing a cell\<close>

text \<open>
  C3. After \<open>handleScheduleChange\<close> has written the list \<open>kidList\<close> to the cell
  \<open>(c, w)\<close> and the store has taken the write, reading the cell gives exactly
  \<open>kidList\<close>, in its order. Every other property of the \<open>schedule\<close> object, and so
  every other cell, is as before: the write adds the one key to the whole mapping and
  drops none. The lists of camps and kids are untouched.
\<close>

theorem handleScheduleChange_roundtrip_frame:
  "attendees (schedule (handleScheduleChange (Some c, Some w) kidList True d)) c w = kidList \<and>
   (\<forall>k. k \<noteq> cellKey c w \<longrightarrow>
      schedule (handleScheduleChange (Some c, Some w) kidList True d) k = schedule d k) \<and>
   (\<forall>c' w'. (c', w') \<noteq> (c, w) \<longrightarrow>
      attendees (schedule (handleScheduleChange (Some c, Some w) kidList True d)) c' w'
        = attendees (schedule d) c' w') \<and>
   dom (schedule (handleScheduleChange (Some c, Some w) kidList True d))
     = insert (cellKey c w) (dom (schedule d)) \<and>
   camps (handleScheduleChange (Some c, Some w) kidList True d) = camps d \<and>
   allKids (handleScheduleChange (Some c, Some w) kidList True d) = allKids d"
  by (auto simp: handleScheduleChange_def attendees_def Let_def cellKey_eq_iff)

theorem handleScheduleChange_roundtrip_frame_witness:
  "((1::nat), (0::nat)) \<noteq> (0, 0) \<and>
   attendees (schedule (handleScheduleChange (Some 0, Some 0) [''Ann''] True exampleDoc)) 0 0
     = [''Ann''] \<and>
   attendees (schedule (handleScheduleChange (Some 0, Some 0) [''Ann''] True exampleDoc)) 1 0
     = [''Bo'']"
proof -
  have ne: "((1::nat), (0::nat)) \<noteq> (0, 0)" by simp
  note t = handleScheduleChange_roundtrip_frame [of 0 0 "[''Ann'']" exampleDoc]
  from t have a:
    "attendees (schedule (handleScheduleChange (Some 0, Some 0) [''Ann''] True exampleDoc)) 0 0
       = [''Ann'']"
    by blast
  from t ne have
    "attendees (schedule (handleScheduleChange (Some 0, Some 0) [''Ann''] True exampleDoc)) 1 0
       = attendees (schedule exampleDoc) 1 0"
    by blast
  moreover have "attendees (schedule exampleDoc) 1 0 = [''Bo'']"
    by (simp add: attendees_def exampleDoc_def cellKey_Suc0)
  ultimately show ?thesis using ne a by simp
qed

subsection \<open>C4: the lists of names\<close>

text \<open>
  C4. Adding a name that is blank, or that the list has already, changes nothing. With
  a consistent comparator, a list of names edited by any sequence of adds and removes
  has no duplicates and is sorted by the comparator: the \<open>kids\<close> of the onboarding
  screen, which start empty; the \<open>currentItems\<close> of the modal, when the stored list it
  opens on has no duplicates; and the \<open>camps\<close> and \<open>allKids\<close> of a document from its
  creation on, after any number of modal sessions on either list, each saved or
  rejected by the store.
\<close>

theorem lists_distinct_sorted:
  assumes "consistent cmp"
  shows "(trim newItem = [] \<or> trim newItem \<in> set items \<longrightarrow>
       handleAddItem cmp items newItem = items) \<and>
    distinct (onboardingKids cmp edits) \<and> sortedBy cmp (onboardingKids cmp edits) \<and>
    (distinct items \<longrightarrow>
       distinct (modalItems cmp items edits) \<and> sortedBy cmp (modalItems cmp items edits)) \<and>
    distinct (camps (editSessions cmp sessions (newScheduleDocument kid uid))) \<and>
    sortedBy cmp (camps (editSessions cmp sessions (newScheduleDocument kid uid))) \<and>
    distinct (allKids (editSessions cmp sessions (newScheduleDocument kid uid))) \<and>
    sortedBy cmp (allKids (editSessions cmp sessions (newScheduleDocument kid uid)))"
proof -
  have "rosterInv cmp (onboardingKids cmp edits)"
    using assms by (rule rosterInv_onboardingKids)
  moreover have "distinct items \<longrightarrow> rosterInv cmp (modalItems cmp items edits)"
    using assms by (simp add: rosterInv_modalItems)
  moreover have "docInv cmp (editSessions cmp sessions (newScheduleDocument kid uid))"
    using assms by (simp add: docInv_editSessions docInv_new)
  moreover have "trim newItem = [] \<or> trim newItem \<in> set items \<longrightarrow>
       handleAddItem cmp items newItem = items"
    by (simp add: handleAddItem_def)
  ultimately show ?thesis by (simp add: docInv_def rosterInv_def)
qed

theorem lists_distinct_sorted_witness:
  "consistent codeCompare \<and> distinct [''Bo'', ''Ann''] \<and>
   trim ''  '' = [] \<and> handleAddItem codeCompare [''Bo'', ''Ann''] ''  '' = [''Bo'', ''Ann''] \<and>
   camps (editSessions codeCompare exampleSessions (newScheduleDocument ''Ann'' ''u1''))
     = [''Art'', ''Soccer''] \<and>
   allKids (editSessions codeCompare exampleSessions (newScheduleDocument ''Ann'' ''u1''))
     = [''Ann'', ''Bo''] \<and>
   modalItems codeCompare [''Bo'', ''Ann''] [AddItem ''Cy'', RemoveItem ''Bo''] = [''Ann'', ''Cy''] \<and>
   distinct (modalItems codeCompare [''Bo'', ''Ann''] [AddItem ''Cy'', RemoveItem ''Bo'']) \<and>
   sortedBy codeCompare (modalItems codeCompare [''Bo'', ''Ann''] [AddItem ''Cy'', RemoveItem ''Bo'']) \<and>
   distinct (camps (editSessions codeCompare exampleSessions (newScheduleDocument ''Ann'' ''u1''))) \<and>
   sortedBy codeCompare
     (allKids (editSessions codeCompare exampleSessions (newScheduleDocument ''Ann'' ''u1'')))"
proof -
  have d: "distinct [''Bo'', ''Ann'']" by simp
  note t = lists_distinct_sorted [OF consistent_codeCompare,
      where newItem = "''  ''" and items = "[''Bo'', ''Ann'']"
        and edits = "[AddItem ''Cy'', RemoveItem ''Bo'']" and sessions = exampleSessions
        and kid = "''Ann''" and uid = "''u1''"]
  have b: "trim ''  '' = []" by (simp add: trim_def isWhiteSpace_def)
  from t b have n: "handleAddItem codeCompare [''Bo'', ''Ann''] ''  '' = [''Bo'', ''Ann'']"
    by blast
  have c: "camps (editSessions codeCompare exampleSessions (newScheduleDocument ''Ann'' ''u1''))
     = [''Art'', ''Soccer'']"
    by (simp add: exampleSessions_def ManagementModal_save_def handleUpdateList_def
        modalItems_def listOf_def newScheduleDocument_def handleAddItem_def
        handleRemoveItem_def trim_def isWhiteSpace_def js_sort_def)
  have k: "allKids (editSessions codeCompare exampleSessions (newScheduleDocument ''Ann'' ''u1''))
     = [''Ann'', ''Bo'']"
    by (simp add: exampleSessions_def ManagementModal_save_def handleUpdateList_def
        modalItems_def listOf_def newScheduleDocument_def handleAddItem_def
        handleRemoveItem_def trim_def isWhiteSpace_def js_sort_def)
  have m: "modalItems codeCompare [''Bo'', ''Ann''] [AddItem ''Cy'', RemoveItem ''Bo'']
     = [''Ann'', ''Cy'']"
    by (simp add: modalItems_def handleAddItem_def handleRemoveItem_def trim_def
        isWhiteSpace_def js_sort_def)
  from t d have
    "distinct (modalItems codeCompare [''Bo'', ''Ann''] [AddItem ''Cy'', RemoveItem ''Bo''])"
    "sortedBy codeCompare (modalItems codeCompare [''Bo'', ''Ann''] [AddItem ''Cy'', RemoveItem ''Bo''])"
    "distinct (camps (editSessions codeCompare exampleSessions (newScheduleDocument ''Ann'' ''u1'')))"
    "sortedBy codeCompare
       (allKids (editSessions codeCompare exampleSessions (newScheduleDocument ''Ann'' ''u1'')))"
    by blast+
  with consistent_codeCompare d b n c k m show ?thesis by blast
qed

subsection \<open>C5: the summary of a kid\<close>

text \<open>
  C5. \<open>PrintableSummary\<close> has one entry for each week below \<open>weekCount\<close>. The
  entry of week \<open>w\<close> names the camp of the lowest index whose list at \<open>(index, w)\<close>
  contains the kid, also when later camps contain the kid too, and gives as friends
  the other names of that list, in its order. When no camp's list of that week
  contains the kid, the entry is \<open>No camp this week!\<close> with no friends.
\<close>

theorem PrintableSummary_first_match:
  "length (PrintableSummary d kid) = weekCount d \<and>
   (\<forall>w < weekCount d.
      (\<forall>c. c < length (camps d) \<and> kid \<in> set (attendees (schedule d) c w) \<and>
           (\<forall>c' < c. kid \<notin> set (attendees (schedule d) c' w)) \<longrightarrow>
           PrintableSummary d kid ! w
             = (camps d ! c, filter (\<lambda>name. name \<noteq> kid) (attendees (schedule d) c w))) \<and>
      ((\<forall>c < length (camps d). kid \<notin> set (attendees (schedule d) c w)) \<longrightarrow>
           PrintableSummary d kid ! w = (''No camp this week!'', [])))"
proof (intro conjI allI impI)
  show "length (PrintableSummary d kid) = weekCount d" by (simp add: PrintableSummary_def)
next
  fix w c
  assume w: "w < weekCount d"
    and h: "c < length (camps d) \<and> kid \<in> set (attendees (schedule d) c w) \<and>
           (\<forall>c' < c. kid \<notin> set (attendees (schedule d) c' w))"
  then have "campLoop d kid w 0
     = (camps d ! c, filter (\<lambda>name. name \<noteq> kid) (attendees (schedule d) c w))"
    by (intro campLoop_found) auto
  with w show "PrintableSummary d kid ! w
             = (camps d ! c, filter (\<lambda>name. name \<noteq> kid) (attendees (schedule d) c w))"
    by (simp add: PrintableSummary_def)
next
  fix w
  assume w: "w < weekCount d"
    and h: "\<forall>c < length (camps d). kid \<notin> set (attendees (schedule d) c w)"
  then have "campLoop d kid w 0 = (''No camp this week!'', [])"
    by (intro campLoop_none) auto
  with w show "PrintableSummary d kid ! w = (''No camp this week!'', [])"
    by (simp add: PrintableSummary_def)
qed

theorem PrintableSummary_first_match_witness:
  "(0::nat) < weekCount doubleBookedDoc \<and> 1 < weekCount doubleBookedDoc \<and>
   ''Bo'' \<in> set (attendees (schedule doubleBookedDoc) 0 0) \<and>
   ''Bo'' \<in> set (attendees (schedule doubleBookedDoc) 1 0) \<and>
   PrintableSummary doubleBookedDoc ''Bo'' ! 0 = (''Art'', [''Ann'']) \<and>
   PrintableSummary doubleBookedDoc ''Bo'' ! 1 = (''No camp this week!'', [])"
proof -
  note t = PrintableSummary_first_match [of doubleBookedDoc "''Bo''"]
  have w0: "(0::nat) < weekCount doubleBookedDoc" and w1: "1 < weekCount doubleBookedDoc"
    by (simp_all add: doubleBookedDoc_def)
  have c0: "0 < length (camps doubleBookedDoc)" by (simp add: doubleBookedDoc_def)
  have in0: "''Bo'' \<in> set (attendees (schedule doubleBookedDoc) 0 0)"
    and in1: "''Bo'' \<in> set (attendees (schedule doubleBookedDoc) 1 0)"
    by (simp_all add: doubleBooked_cells)
  have first: "\<forall>c' < (0::nat). ''Bo'' \<notin> set (attendees (schedule doubleBookedDoc) c' 0)" by simp
  from t w0 c0 in0 first have
    "PrintableSummary doubleBookedDoc ''Bo'' ! 0
       = (camps doubleBookedDoc ! 0,
          filter (\<lambda>name. name \<noteq> ''Bo'') (attendees (schedule doubleBookedDoc) 0 0))"
    by blast
  then have r0: "PrintableSummary doubleBookedDoc ''Bo'' ! 0 = (''Art'', [''Ann''])"
    by (simp add: doubleBooked_cells) (simp add: doubleBookedDoc_def)
  have len: "length (camps doubleBookedDoc) = Suc (Suc 0)" by (simp add: doubleBookedDoc_def)
  have none: "\<forall>c < length (camps doubleBookedDoc).
      ''Bo'' \<notin> set (attendees (schedule doubleBookedDoc) c 1)"
    by (simp add: len less_Suc_eq doubleBooked_cells)
  from t w1 none have r1: "PrintableSummary doubleBookedDoc ''Bo'' ! 1 = (''No camp this week!'', [])"
    by blast
  from w0 w1 in0 in1 r0 r1 show ?thesis by blast
qed

subsection \<open>C6: the colour of a kid\<close>

text \<open>
  C6. The palette has eight tokens, all different. For a kid in \<open>allKids\<close>,
  \<open>getKidColor\<close> is the palette token at the kid's index in the sorted \<open>allKids\<close>,
  modulo the length of the palette; it is computed from the list alone. When a new
  name is added to \<open>allKids\<close> and sorts before the kid, the kid's colour becomes the
  token at the old index plus one, modulo the length; when it sorts after the kid, the
  colour stays.
\<close>

theorem getKidColor_rank_rotation:
  assumes "consistent cmp"
  shows "8 \<le> length kidColors \<and> distinct kidColors \<and>
    (kid \<in> set kidList \<longrightarrow> getKidColor cmp kidList kid = Some (specColor cmp kidList kid)) \<and>
    (kid \<in> set (allKids d) \<and> trim newItem \<noteq> [] \<and> trim newItem \<notin> set (allKids d) \<longrightarrow>
       (specIndex (js_sort cmp (allKids (addKid cmp newItem d))) (trim newItem)
          < specIndex (js_sort cmp (allKids (addKid cmp newItem d))) kid \<longrightarrow>
        getKidColor cmp (allKids (addKid cmp newItem d)) kid
          = Some (kidColors ! ((specIndex (js_sort cmp (allKids d)) kid + 1) mod length kidColors))) \<and>
       (specIndex (js_sort cmp (allKids (addKid cmp newItem d))) kid
          < specIndex (js_sort cmp (allKids (addKid cmp newItem d))) (trim newItem) \<longrightarrow>
        getKidColor cmp (allKids (addKid cmp newItem d)) kid
          = getKidColor cmp (allKids d) kid))"
proof (intro conjI impI)
  show "8 \<le> length kidColors" by (simp add: length_kidColors)
  show "distinct kidColors" by (simp add: kidColors_def)
next
  assume "kid \<in> set kidList"
  then show "getKidColor cmp kidList kid = Some (specColor cmp kidList kid)"
    by (rule getKidColor_specColor)
next
  let ?L = "js_sort cmp (allKids (addKid cmp newItem d))"
  assume h: "kid \<in> set (allKids d) \<and> trim newItem \<noteq> [] \<and> trim newItem \<notin> set (allKids d)"
    and lt: "specIndex ?L (trim newItem) < specIndex ?L kid"
  from h have ne: "trim newItem \<noteq> kid" by auto
  from h have r: "remove1 (trim newItem) ?L = js_sort cmp (allKids d)"
    and m: "kid \<in> set (allKids (addKid cmp newItem d))"
    using sorted_after_addKid [OF assms, of newItem d] by simp_all
  from ne lt have "specIndex ?L kid = Suc (specIndex (remove1 (trim newItem) ?L) kid)"
    by (rule specIndex_after_remove1)
  with r have "specIndex ?L kid = specIndex (js_sort cmp (allKids d)) kid + 1" by simp
  with getKidColor_specColor [OF m, of cmp]
  show "getKidColor cmp (allKids (addKid cmp newItem d)) kid
          = Some (kidColors ! ((specIndex (js_sort cmp (allKids d)) kid + 1) mod length kidColors))"
    by (simp add: specColor_def)
next
  let ?L = "js_sort cmp (allKids (addKid cmp newItem d))"
  assume h: "kid \<in> set (allKids d) \<and> trim newItem \<noteq> [] \<and> trim newItem \<notin> set (allKids d)"
    and lt: "specIndex ?L kid < specIndex ?L (trim newItem)"
  from h have r: "remove1 (trim newItem) ?L = js_sort cmp (allKids d)"
    and m: "kid \<in> set (allKids (addKid cmp newItem d))" and m0: "kid \<in> set (allKids d)"
    using sorted_after_addKid [OF assms, of newItem d] by simp_all
  from lt have "specIndex (remove1 (trim newItem) ?L) kid = specIndex ?L kid"
    by (rule specIndex_before_remove1)
  with r have "specIndex ?L kid = specIndex (js_sort cmp (allKids d)) kid" by simp
  with getKidColor_specColor [OF m, of cmp] getKidColor_specColor [OF m0, of cmp]
  show "getKidColor cmp (allKids (addKid cmp newItem d)) kid = getKidColor cmp (allKids d) kid"
    by (simp add: specColor_def)
qed

theorem getKidColor_rank_rotation_witness:
  "consistent codeCompare \<and>
   ''Ann'' \<in> set (allKids exampleDoc) \<and> trim ''Al '' \<noteq> [] \<and>
   trim ''Al '' \<notin> set (allKids exampleDoc) \<and>
   allKids (addKid codeCompare ''Al '' exampleDoc) = [''Al'', ''Ann'', ''Bo''] \<and>
   getKidColor codeCompare (allKids exampleDoc) ''Ann'' = Some ''bg-blue-200 text-blue-800'' \<and>
   getKidColor codeCompare (allKids (addKid codeCompare ''Al '' exampleDoc)) ''Ann''
     = Some ''bg-green-200 text-green-800''"
proof -
  note t = getKidColor_rank_rotation [OF consistent_codeCompare,
      of "''Ann''" "allKids exampleDoc" exampleDoc "''Al ''"]
  have tr: "trim ''Al '' = ''Al''" by (simp add: trim_def isWhiteSpace_def)
  have k: "allKids exampleDoc = [''Ann'', ''Bo'']" by (simp add: exampleDoc_def)
  have a: "allKids (addKid codeCompare ''Al '' exampleDoc) = [''Al'', ''Ann'', ''Bo'']"
    by (simp add: addKid_def ManagementModal_save_def handleUpdateList_def modalItems_def
        listOf_def handleAddItem_def tr k js_sort_def)
  have s: "js_sort codeCompare [''Al'', ''Ann'', ''Bo''] = [''Al'', ''Ann'', ''Bo'']"
    "js_sort codeCompare [''Ann'', ''Bo''] = [''Ann'', ''Bo'']"
    by (simp_all add: js_sort_def)
  have m: "''Ann'' \<in> set (allKids exampleDoc)" and n: "trim ''Al '' \<noteq> []"
    and o: "trim ''Al '' \<notin> set (allKids exampleDoc)"
    by (simp_all add: tr k)
  have lt: "specIndex (js_sort codeCompare (allKids (addKid codeCompare ''Al '' exampleDoc))) (trim ''Al '')
      < specIndex (js_sort codeCompare (allKids (addKid codeCompare ''Al '' exampleDoc))) ''Ann''"
    by (simp add: a s tr specIndex_def)
  from t m have "getKidColor codeCompare (allKids exampleDoc) ''Ann''
      = Some (specColor codeCompare (allKids exampleDoc) ''Ann'')"
    by blast
  then have before: "getKidColor codeCompare (allKids exampleDoc) ''Ann'' = Some ''bg-blue-200 text-blue-800''"
    by (simp add: specColor_def k s specIndex_def kidColors_def)
  from t m n o lt have "getKidColor codeCompare (allKids (addKid codeCompare ''Al '' exampleDoc)) ''Ann''
      = Some (kidColors ! ((specIndex (js_sort codeCompare (allKids exampleDoc)) ''Ann'' + 1)
            mod length kidColors))"
    by blast
  then have after: "getKidColor codeCompare (allKids (addKid codeCompare ''Al '' exampleDoc)) ''Ann''
      = Some ''bg-green-200 text-green-800''"
    by (simp add: k s specIndex_def kidColors_def)
  from consistent_codeCompare m n o a before after show ?thesis by blast
qed

subsection \<open>C7: the identifier of a new schedule\<close>

text \<open>
  C7. The identifier is the part of the base-36 numeral from position 2 up to, not
  including, position 8, in upper case. When the random number is \<open>0.5\<close> the numeral
  is \<open>0.i\<close> and the identifier is the one character \<open>I\<close>, under which the document
  is stored. When the random number is \<open>0\<close> the expression gives the empty string,
  which is refused as the name of a document, so no schedule is created. A numeral
  with six digits or more after the point gives six characters.
\<close>

theorem newScheduleId_short:
  "newScheduleId ''0.i'' = ''I'' \<and> length (newScheduleId ''0.i'') = 1 \<and>
   newScheduleId ''0'' = [] \<and> newScheduleId ''0.4fzyo82mvyr'' = ''4FZYO8''"
  by (simp add: newScheduleId_def substring_def toUpperCase_def toUpperChar_def)

subsection \<open>C8: absent keys and empty lists\<close>

text \<open>
  C8. For any property name \<open>k\<close> of the \<open>schedule\<close> object, the document in which
  \<open>k\<close> is absent and the document in which \<open>k\<close> holds the empty list are read
  alike: the grid draws the same rows, the summary of any kid has the same entries,
  and the edit dialog of any cell opens with the same set of checked kids and the same
  checkboxes. When \<open>k\<close> is the key of the cell \<open>(c, w)\<close>, both documents read as no one
  assigned there: the list of attendees is empty, the grid draws no badge and the plus
  icon, the dialog opens with no kid checked and every checkbox unchecked, and the
  summary of a kid whom no other camp lists in week \<open>w\<close> says
  \<open>No camp this week!\<close> with no friends.
\<close>

theorem absent_and_empty_read_alike:
  "ScheduleGrid cmp (d\<lparr>schedule := (schedule d)(k := None)\<rparr>)
     = ScheduleGrid cmp (d\<lparr>schedule := (schedule d)(k \<mapsto> [])\<rparr>) \<and>
   PrintableSummary (d\<lparr>schedule := (schedule d)(k := None)\<rparr>) kid
     = PrintableSummary (d\<lparr>schedule := (schedule d)(k \<mapsto> [])\<rparr>) kid \<and>
   initialSelectedKids (d\<lparr>schedule := (schedule d)(k := None)\<rparr>) c w
     = initialSelectedKids (d\<lparr>schedule := (schedule d)(k \<mapsto> [])\<rparr>) c w \<and>
   checkboxes cmp (d\<lparr>schedule := (schedule d)(k := None)\<rparr>)
       (initialSelectedKids (d\<lparr>schedule := (schedule d)(k := None)\<rparr>) c w)
     = checkboxes cmp (d\<lparr>schedule := (schedule d)(k \<mapsto> [])\<rparr>)
       (initialSelectedKids (d\<lparr>schedule := (schedule d)(k \<mapsto> [])\<rparr>) c w) \<and>
   attendees ((schedule d)(cellKey c w := None)) c w = [] \<and>
   attendees ((schedule d)(cellKey c w \<mapsto> [])) c w = [] \<and>
   gridCell cmp (d\<lparr>schedule := (schedule d)(cellKey c w := None)\<rparr>) c w = ([], True) \<and>
   gridCell cmp (d\<lparr>schedule := (schedule d)(cellKey c w \<mapsto> [])\<rparr>) c w = ([], True) \<and>
   initialSelectedKids (d\<lparr>schedule := (schedule d)(cellKey c w := None)\<rparr>) c w = [] \<and>
   initialSelectedKids (d\<lparr>schedule := (schedule d)(cellKey c w \<mapsto> [])\<rparr>) c w = [] \<and>
   checkboxes cmp (d\<lparr>schedule := (schedule d)(cellKey c w := None)\<rparr>)
       (initialSelectedKids (d\<lparr>schedule := (schedule d)(cellKey c w := None)\<rparr>) c w)
     = map (\<lambda>name. (name, False)) (js_sort cmp (allKids d)) \<and>
   checkboxes cmp (d\<lparr>schedule := (schedule d)(cellKey c w \<mapsto> [])\<rparr>)
       (initialSelectedKids (d\<lparr>schedule := (schedule d)(cellKey c w \<mapsto> [])\<rparr>) c w)
     = map (\<lambda>name. (name, False)) (js_sort cmp (allKids d)) \<and>
   (w < weekCount d \<and>
    (\<forall>c' < length (camps d). c' \<noteq> c \<longrightarrow> kid \<notin> set (attendees (schedule d) c' w)) \<longrightarrow>
      PrintableSummary (d\<lparr>schedule := (schedule d)(cellKey c w := None)\<rparr>) kid ! w
        = (''No camp this week!'', []) \<and>
      PrintableSummary (d\<lparr>schedule := (schedule d)(cellKey c w \<mapsto> [])\<rparr>) kid ! w
        = (''No camp this week!'', []))"
proof (intro conjI impI)
  show "ScheduleGrid cmp (d\<lparr>schedule := (schedule d)(k := None)\<rparr>)
     = ScheduleGrid cmp (d\<lparr>schedule := (schedule d)(k \<mapsto> [])\<rparr>)"
    by (simp add: ScheduleGrid_def gridCell_def attendees_absent_empty)
  have "\<And>w. campLoop (d\<lparr>schedule := (schedule d)(k := None)\<rparr>) kid w 0
     = campLoop (d\<lparr>schedule := (schedule d)(k \<mapsto> [])\<rparr>) kid w 0"
    by (rule campLoop_cong) (simp_all add: attendees_absent_empty)
  then show "PrintableSummary (d\<lparr>schedule := (schedule d)(k := None)\<rparr>) kid
     = PrintableSummary (d\<lparr>schedule := (schedule d)(k \<mapsto> [])\<rparr>) kid"
    by (simp add: PrintableSummary_def)
  show i: "initialSelectedKids (d\<lparr>schedule := (schedule d)(k := None)\<rparr>) c w
     = initialSelectedKids (d\<lparr>schedule := (schedule d)(k \<mapsto> [])\<rparr>) c w"
    by (simp add: initialSelectedKids_def attendees_absent_empty)
  show "checkboxes cmp (d\<lparr>schedule := (schedule d)(k := None)\<rparr>)
       (initialSelectedKids (d\<lparr>schedule := (schedule d)(k := None)\<rparr>) c w)
     = checkboxes cmp (d\<lparr>schedule := (schedule d)(k \<mapsto> [])\<rparr>)
       (initialSelectedKids (d\<lparr>schedule := (schedule d)(k \<mapsto> [])\<rparr>) c w)"
    by (simp add: i) (simp add: checkboxes_def)
  show "attendees ((schedule d)(cellKey c w := None)) c w = []" by (rule attendees_absent)
  show "attendees ((schedule d)(cellKey c w \<mapsto> [])) c w = []" by (rule attendees_empty)
  show "gridCell cmp (d\<lparr>schedule := (schedule d)(cellKey c w := None)\<rparr>) c w = ([], True)"
    by (simp add: gridCell_def attendees_absent)
  show "gridCell cmp (d\<lparr>schedule := (schedule d)(cellKey c w \<mapsto> [])\<rparr>) c w = ([], True)"
    by (simp add: gridCell_def attendees_empty)
  show ia: "initialSelectedKids (d\<lparr>schedule := (schedule d)(cellKey c w := None)\<rparr>) c w = []"
    by (simp add: initialSelectedKids_def attendees_absent newSet_Nil)
  show ie: "initialSelectedKids (d\<lparr>schedule := (schedule d)(cellKey c w \<mapsto> [])\<rparr>) c w = []"
    by (simp add: initialSelectedKids_def attendees_empty newSet_Nil)
  show "checkboxes cmp (d\<lparr>schedule := (schedule d)(cellKey c w := None)\<rparr>)
       (initialSelectedKids (d\<lparr>schedule := (schedule d)(cellKey c w := None)\<rparr>) c w)
     = map (\<lambda>name. (name, False)) (js_sort cmp (allKids d))"
    by (simp add: ia) (simp add: checkboxes_def setHas_def)
  show "checkboxes cmp (d\<lparr>schedule := (schedule d)(cellKey c w \<mapsto> [])\<rparr>)
       (initialSelectedKids (d\<lparr>schedule := (schedule d)(cellKey c w \<mapsto> [])\<rparr>) c w)
     = map (\<lambda>name. (name, False)) (js_sort cmp (allKids d))"
    by (simp add: ie) (simp add: checkboxes_def setHas_def)
next
  assume h: "w < weekCount d \<and>
    (\<forall>c' < length (camps d). c' \<noteq> c \<longrightarrow> kid \<notin> set (attendees (schedule d) c' w))"
  show "PrintableSummary (d\<lparr>schedule := (schedule d)(cellKey c w := None)\<rparr>) kid ! w
        = (''No camp this week!'', [])"
    using h by (intro summary_none_when_cell_unassigned [where c = c])
      (simp_all add: attendees_absent attendees_other_absent)
next
  assume h: "w < weekCount d \<and>
    (\<forall>c' < length (camps d). c' \<noteq> c \<longrightarrow> kid \<notin> set (attendees (schedule d) c' w))"
  show "PrintableSummary (d\<lparr>schedule := (schedule d)(cellKey c w \<mapsto> [])\<rparr>) kid ! w
        = (''No camp this week!'', [])"
    using h by (intro summary_none_when_cell_unassigned [where c = c])
      (simp_all add: attendees_empty attendees_other_empty)
qed

theorem absent_and_empty_read_alike_witness:
  "(0::nat) < weekCount exampleDoc \<and>
   ''Ann'' \<notin> set (attendees (schedule exampleDoc) 1 0) \<and>
   PrintableSummary (exampleDoc\<lparr>schedule := (schedule exampleDoc)(cellKey 0 0 := None)\<rparr>) ''Ann'' ! 0
     = (''No camp this week!'', []) \<and>
   PrintableSummary (exampleDoc\<lparr>schedule := (schedule exampleDoc)(cellKey 0 0 \<mapsto> [])\<rparr>) ''Ann'' ! 0
     = (''No camp this week!'', []) \<and>
   gridCell codeCompare (exampleDoc\<lparr>schedule := (schedule exampleDoc)(cellKey 0 0 \<mapsto> [])\<rparr>) 0 0
     = ([], True)"
proof -
  note t = absent_and_empty_read_alike [of codeCompare exampleDoc "cellKey 0 0" "''Ann''" 0 0]
  have w: "(0::nat) < weekCount exampleDoc" by (simp add: exampleDoc_def)
  have len: "length (camps exampleDoc) = Suc (Suc 0)" by (simp add: exampleDoc_def)
  have o: "''Ann'' \<notin> set (attendees (schedule exampleDoc) 1 0)"
    by (simp add: attendees_def exampleDoc_def cellKey_Suc0)
  then have others: "\<forall>c' < length (camps exampleDoc). c' \<noteq> 0 \<longrightarrow>
      ''Ann'' \<notin> set (attendees (schedule exampleDoc) c' 0)"
    by (simp add: len less_Suc_eq)
  from t w others have
    "PrintableSummary (exampleDoc\<lparr>schedule := (schedule exampleDoc)(cellKey 0 0 := None)\<rparr>) ''Ann'' ! 0
       = (''No camp this week!'', [])"
    "PrintableSummary (exampleDoc\<lparr>schedule := (schedule exampleDoc)(cellKey 0 0 \<mapsto> [])\<rparr>) ''Ann'' ! 0
       = (''No camp this week!'', [])"
    by blast+
  moreover from t have
    "gridCell codeCompare (exampleDoc\<lparr>schedule := (schedule exampleDoc)(cellKey 0 0 \<mapsto> [])\<rparr>) 0 0
       = ([], True)"
    by blast
  ultimately show ?thesis using w o by blast
qed

subsection \<open>C9: the list submitted by the edit dialog\<close>

text \<open>
  C9. Whatever list the cell holds when the dialog opens (duplicates included) and
  whatever checkboxes are toggled, in any order and any number of times, the list that
  \<open>handleSave\<close> hands to \<open>handleScheduleChange\<close> names no kid twice.
\<close>

theorem submittedAttendees_distinct:
  "distinct (submittedAttendees d c w toggles)"
  by (simp add: submittedAttendees_def arrayFrom_def initialSelectedKids_def
      distinct_toggles distinct_newSet)

subsection \<open>C10: the colour of a name that is not a kid\<close>

text \<open>
  C10. \<open>getKidColor\<close> returns one of the eight tokens of the palette exactly for the
  names that are in \<open>allKids\<close>. For any other name \<open>indexOf\<close> gives \<open>-1\<close>, the remainder
  of \<open>-1\<close> by the length of the palette is \<open>-1\<close> again, the palette has no element
  there, and the result is \<open>undefined\<close>.
\<close>

theorem getKidColor_defined_iff:
  "(kid \<in> set kidList \<longrightarrow> (\<exists>token \<in> set kidColors. getKidColor cmp kidList kid = Some token)) \<and>
   (kid \<notin> set kidList \<longrightarrow>
      indexOf (js_sort cmp kidList) kid = - 1 \<and>
      js_rem (- 1) (int (length kidColors)) = - 1 \<and>
      arrayAt kidColors (- 1) = None \<and>
      getKidColor cmp kidList kid = None) \<and>
   length kidColors = 8"
proof (intro conjI impI)
  assume "kid \<in> set kidList"
  then have "getKidColor cmp kidList kid
           = Some (kidColors ! (nat (indexOf (js_sort cmp kidList) kid) mod 8))"
    by (rule getKidColor_present)
  moreover have "kidColors ! (nat (indexOf (js_sort cmp kidList) kid) mod 8) \<in> set kidColors"
    by (rule nth_mem) (simp add: length_kidColors)
  ultimately show "\<exists>token \<in> set kidColors. getKidColor cmp kidList kid = Some token" by simp
next
  assume a: "kid \<notin> set kidList"
  then show "indexOf (js_sort cmp kidList) kid = - 1" by (simp add: indexOf_absent set_js_sort)
  show "js_rem (- 1) (int (length kidColors)) = - 1" by (simp add: js_rem_def length_kidColors)
  show "arrayAt kidColors (- 1) = None" by (simp add: arrayAt_def)
  from a show "getKidColor cmp kidList kid = None" by (rule getKidColor_absent)
next
  show "length kidColors = 8" by (rule length_kidColors)
qed

theorem getKidColor_defined_iff_witness:
  "''Ann'' \<in> set (allKids exampleDoc) \<and>
   (\<exists>token \<in> set kidColors. getKidColor codeCompare (allKids exampleDoc) ''Ann'' = Some token) \<and>
   ''Zed'' \<notin> set (allKids exampleDoc) \<and>
   getKidColor codeCompare (allKids exampleDoc) ''Zed'' = None"
proof -
  have m: "''Ann'' \<in> set (allKids exampleDoc)" and n: "''Zed'' \<notin> set (allKids exampleDoc)"
    by (simp_all add: exampleDoc_def)
  from m getKidColor_defined_iff [of "''Ann''" "allKids exampleDoc" codeCompare]
  have "\<exists>token \<in> set kidColors. getKidColor codeCompare (allKids exampleDoc) ''Ann'' = Some token"
    by blast
  moreover from n getKidColor_defined_iff [of "''Zed''" "allKids exampleDoc" codeCompare]
  have "getKidColor codeCompare (allKids exampleDoc) ''Zed'' = None"
    by blast
  ultimately show ?thesis using m n by blast
qed

end
